theory Spec2Isabelle
  imports Main "HOL-Library.Sublist"
begin

section \<open>Strings\<close>

text \<open>
  A JavaScript string is a sequence of 16-bit code units. The model uses \<open>string\<close>,
  whose characters are the code units below 256 (ASCII and the Latin-1 supplement); on
  that range \<open>trim\<close>, \<open>toLowerCase\<close> and \<open>includes_str\<close> below are what
  \<^verbatim>\<open>String.prototype.trim\<close>, \<^verbatim>\<open>String.prototype.toLowerCase\<close> and
  \<^verbatim>\<open>String.prototype.includes\<close> compute. Code units from 256 on (where lower-casing
  may change a string's length or depend on context) are outside the model.
\<close>

text \<open>
  ECMAScript WhiteSpace and LineTerminator code units below 256: TAB, LF, VT, FF, CR,
  SP and NBSP.
\<close>

definition isWhiteSpace :: "char \<Rightarrow> bool" where
  "isWhiteSpace c = ((of_char c :: nat) \<in> set [9, 10, 11, 12, 13, 32, 160])"

text \<open>\<^verbatim>\<open>s.trim()\<close>: leading and trailing white space removed.\<close>

definition trim :: "string \<Rightarrow> string" where
  "trim s = rev (dropWhile isWhiteSpace (rev (dropWhile isWhiteSpace s)))"

text \<open>
  The Unicode simple lower-case mapping on one code unit below 256: A to Z, and the
  Latin-1 capitals U+00C0 to U+00DE without the multiplication sign U+00D7, move up
  by 32; every other code unit is its own lower case.
\<close>

definition toLowerChar :: "char \<Rightarrow> char" where
  "toLowerChar c =
     (let n = (of_char c :: nat)
      in if (65 \<le> n \<and> n \<le> 90) \<or> (192 \<le> n \<and> n \<le> 214) \<or> (216 \<le> n \<and> n \<le> 222)
         then char_of (n + 32) else c)"

definition toLowerCase :: "string \<Rightarrow> string" where
  "toLowerCase s = map toLowerChar s"

text \<open>
  \<^verbatim>\<open>s.includes(t)\<close>: some position of \<open>s\<close> starts a copy of \<open>t\<close>. The positions
  are tried from the left; the empty string is included in every string.
\<close>

fun includes_str :: "string \<Rightarrow> string \<Rightarrow> bool" where
  "includes_str [] t = (t = [])"
| "includes_str (c # s) t = (prefix t (c # s) \<or> includes_str s t)"

section \<open>Records\<close>

text \<open>
  Modelled from the spec: the declarations of \<^verbatim>\<open>CategoryInfo\<close> and \<^verbatim>\<open>WatchItem\<close>
  (the file \<^verbatim>\<open>types.ts\<close>) are missing; the fields are those of the object literals
  of the constants file and of the data model of the specification. The field \<^verbatim>\<open>id\<close>
  is \<open>cat_id\<close> and \<open>item_id\<close>. \<^verbatim>\<open>trailerUrl\<close> and \<^verbatim>\<open>watchLink\<close> are optional.
\<close>

record CategoryInfo =
  cat_id :: string
  name :: string
  color :: string
  gradient :: string
  path :: string

record StatusOption =
  opt_value :: string
  opt_label :: string
  opt_color :: string

record WatchItem =
  item_id :: string
  category :: string
  title :: string
  year :: int
  poster :: string
  myRating :: int
  episodes :: int
  episodesWatched :: int
  status :: string
  genres :: "string list"
  watchLink :: "string option"
  trailerUrl :: "string option"
  dateAdded :: string
  lastUpdated :: string
  favorite :: bool

section \<open>Constants\<close>

definition CATEGORIES :: "CategoryInfo list" where
  "CATEGORIES =
    [\<lparr>cat_id = ''kdrama'', name = ''K-DRAMA'', color = ''#A42EFF'',
      gradient = ''from-[#1a0a2e] to-[#A42EFF]'', path = ''/kdrama''\<rparr>,
     \<lparr>cat_id = ''kmovie'', name = ''K-MOVIE'', color = ''#A42EFF'',
      gradient = ''from-[#1a0a2e] to-[#A42EFF]'', path = ''/kmovie''\<rparr>,
     \<lparr>cat_id = ''hdrama'', name = ''H-DRAMA'', color = ''#5045D9'',
      gradient = ''from-[#0a0a2e] to-[#5045D9]'', path = ''/hdrama''\<rparr>,
     \<lparr>cat_id = ''hmovie'', name = ''H-MOVIE'', color = ''#5045D9'',
      gradient = ''from-[#0a0a2e] to-[#5045D9]'', path = ''/hmovie''\<rparr>,
     \<lparr>cat_id = ''bdrama'', name = ''B-DRAMA'', color = ''#E81717'',
      gradient = ''from-[#2e0a0a] to-[#E81717]'', path = ''/bdrama''\<rparr>,
     \<lparr>cat_id = ''bmovie'', name = ''B-MOVIE'', color = ''#E81717'',
      gradient = ''from-[#2e0a0a] to-[#E81717]'', path = ''/bmovie''\<rparr>,
     \<lparr>cat_id = ''cdrama'', name = ''C-DRAMA'', color = ''#F7D625'',
      gradient = ''from-[#2e2a0a] to-[#F7D625]'', path = ''/cdrama''\<rparr>,
     \<lparr>cat_id = ''anime'', name = ''ANIME'', color = ''#FF7DE8'',
      gradient = ''from-[#2e0a26] to-[#FF7DE8]'', path = ''/anime''\<rparr>]"

definition STATUS_OPTIONS :: "StatusOption list" where
  "STATUS_OPTIONS =
    [\<lparr>opt_value = ''watching'', opt_label = ''Watching'', opt_color = ''#4CAF50''\<rparr>,
     \<lparr>opt_value = ''completed'', opt_label = ''Completed'', opt_color = ''#2196F3''\<rparr>,
     \<lparr>opt_value = ''plan-to-watch'', opt_label = ''Plan to Watch'', opt_color = ''#FFC107''\<rparr>,
     \<lparr>opt_value = ''on-hold'', opt_label = ''On Hold'', opt_color = ''#9E9E9E''\<rparr>,
     \<lparr>opt_value = ''dropped'', opt_label = ''Dropped'', opt_color = ''#F44336''\<rparr>]"

definition INITIAL_DATA :: "WatchItem list" where
  "INITIAL_DATA =
    [\<lparr>item_id = ''kd001'', category = ''kdrama'', title = ''Lovely Runner'', year = 2024,
      poster = ''https://picsum.photos/seed/lovely/500/750'', myRating = 10,
      episodes = 16, episodesWatched = 16, status = ''completed'',
      genres = [''Romance'', ''Fantasy'', ''Comedy''],
      watchLink = Some ''https://example.com/watch/lovely-runner'',
      trailerUrl = Some ''https://www.youtube.com/watch?v=8M7Y703sZSc'',
      dateAdded = ''2024-12-15'', lastUpdated = ''2024-12-16'', favorite = True\<rparr>,
     \<lparr>item_id = ''hm001'', category = ''hmovie'', title = ''Dune: Part Two'', year = 2024,
      poster = ''https://picsum.photos/seed/dune/500/750'', myRating = 9,
      episodes = 1, episodesWatched = 1, status = ''completed'',
      genres = [''Sci-Fi'', ''Adventure'', ''Drama''],
      watchLink = Some ''https://example.com/watch/dune-2'',
      trailerUrl = None,
      dateAdded = ''2024-12-10'', lastUpdated = ''2024-12-12'', favorite = True\<rparr>,
     \<lparr>item_id = ''ani001'', category = ''anime'', title = ''Jujutsu Kaisen'', year = 2023,
      poster = ''https://picsum.photos/seed/jjk/500/750'', myRating = 9,
      episodes = 24, episodesWatched = 24, status = ''completed'',
      genres = [''Action'', ''Fantasy'', ''Supernatural''],
      watchLink = Some ''https://example.com/watch/jujutsu-kaisen'',
      trailerUrl = None,
      dateAdded = ''2024-11-20'', lastUpdated = ''2024-11-25'', favorite = True\<rparr>,
     \<lparr>item_id = ''cd001'', category = ''cdrama'', title = ''Love Between Fairy and Devil'',
      year = 2022,
      poster = ''https://picsum.photos/seed/fairy/500/750'', myRating = 8,
      episodes = 36, episodesWatched = 36, status = ''completed'',
      genres = [''Romance'', ''Fantasy''],
      watchLink = Some ''https://example.com/watch/fairy-devil'',
      trailerUrl = None,
      dateAdded = ''2024-10-05'', lastUpdated = ''2024-10-06'', favorite = False\<rparr>]"

section \<open>Theme resolution\<close>

text \<open>
  \<^verbatim>\<open>CATEGORIES.find(cat => location.pathname === cat.path)\<close>: the first category
  whose path is the current one, or \<^verbatim>\<open>undefined\<close> (here \<open>None\<close>).
\<close>

definition currentCategory :: "string \<Rightarrow> CategoryInfo option" where
  "currentCategory pathname = find (\<lambda>cat. pathname = path cat) CATEGORIES"

text \<open>
  \<^verbatim>\<open>currentCategory?.color || '#A42EFF'\<close>: the operator \<^verbatim>\<open>||\<close> takes its right
  operand when the left one is \<^verbatim>\<open>undefined\<close> or the empty string.
\<close>

definition themeColor :: "string \<Rightarrow> string" where
  "themeColor pathname =
     (case currentCategory pathname of
        None \<Rightarrow> ''#A42EFF''
      | Some cat \<Rightarrow> if color cat = [] then ''#A42EFF'' else color cat)"

section \<open>Search preview\<close>

text \<open>
  The memoised value \<^verbatim>\<open>searchPreview\<close> as a function of the two values it is
  computed from: nothing for a query that trims to the empty string, and otherwise
  the first five items whose lower-cased title includes the lower-cased query.
\<close>

definition searchPreview :: "WatchItem list \<Rightarrow> string \<Rightarrow> WatchItem list" where
  "searchPreview items searchQuery =
     (if trim searchQuery = [] then []
      else take 5 (filter (\<lambda>item. includes_str (toLowerCase (title item)) (toLowerCase searchQuery))
                     items))"

section \<open>Facts about the string functions\<close>

text \<open>
  \<open>includes_str\<close> decides the contiguous-substring relation: the string \<open>s\<close>
  includes \<open>t\<close> exactly when \<open>s\<close> is some prefix, then \<open>t\<close>, then some suffix.
\<close>

lemma includes_str_sublist: "includes_str s t \<longleftrightarrow> sublist t s"
  by (induction s) (simp_all add: sublist_Cons_right)

lemma includes_str_iff: "includes_str s t \<longleftrightarrow> (\<exists>ps ss. s = ps @ t @ ss)"
  by (simp add: includes_str_sublist sublist_def)

lemma isWhiteSpace_toLowerChar: "isWhiteSpace (toLowerChar c) = isWhiteSpace c"
proof -
  define n where "n = (of_char c :: nat)"
  show ?thesis
  proof (cases "(65 \<le> n \<and> n \<le> 90) \<or> (192 \<le> n \<and> n \<le> 214) \<or> (216 \<le> n \<and> n \<le> 222)")
    case True
    then have m: "(n + 32) mod 256 = n + 32" by auto
    have "toLowerChar c = char_of (n + 32)"
      using True by (simp add: toLowerChar_def n_def Let_def)
    then have "(of_char (toLowerChar c) :: nat) = n + 32"
      using m by simp
    then show ?thesis
      using True by (auto simp: isWhiteSpace_def n_def)
  next
    case False
    then have "toLowerChar c = c"
      unfolding n_def toLowerChar_def Let_def by (rule if_not_P)
    then show ?thesis by simp
  qed
qed

lemma toLowerCase_dropWhile:
  "toLowerCase (dropWhile isWhiteSpace s) = dropWhile isWhiteSpace (toLowerCase s)"
  by (induction s) (simp_all add: toLowerCase_def isWhiteSpace_toLowerChar)

lemma toLowerCase_rev: "toLowerCase (rev s) = rev (toLowerCase s)"
  by (simp add: toLowerCase_def rev_map)

lemma toLowerCase_trim: "toLowerCase (trim s) = trim (toLowerCase s)"
  by (simp add: trim_def toLowerCase_rev toLowerCase_dropWhile)

lemma sublist_trim: "sublist (trim s) s"
proof -
  have "sublist (dropWhile isWhiteSpace (rev (dropWhile isWhiteSpace s)))
          (rev (dropWhile isWhiteSpace s))"
    by (rule sublist_dropWhile)
  then have "sublist (trim s) (dropWhile isWhiteSpace s)"
    by (simp add: trim_def sublist_rev_left)
  moreover have "sublist (dropWhile isWhiteSpace s) s"
    by (rule sublist_dropWhile)
  ultimately show ?thesis
    by (rule sublist_order.order_trans)
qed

lemma sublist_toLowerCase: "sublist t s \<Longrightarrow> sublist (toLowerCase t) (toLowerCase s)"
  by (simp add: toLowerCase_def map_mono_sublist)

lemma dropWhile_all_iff: "(\<forall>x\<in>set (dropWhile P xs). P x) \<longleftrightarrow> (\<forall>x\<in>set xs. P x)"
  by (induction xs) auto

lemma trim_blank_iff: "trim s = [] \<longleftrightarrow> (\<forall>c\<in>set s. isWhiteSpace c)"
  by (simp add: trim_def dropWhile_all_iff)

lemma dropWhile_hd: "xs \<noteq> [] \<Longrightarrow> \<not> P (hd xs) \<Longrightarrow> dropWhile P xs = xs"
  by (cases xs) simp_all

lemma trim_unchanged:
  assumes "s \<noteq> []" "\<not> isWhiteSpace (hd s)" "\<not> isWhiteSpace (last s)"
  shows "trim s = s"
proof -
  have a: "dropWhile isWhiteSpace s = s"
    using assms(1,2) by (rule dropWhile_hd)
  have "\<not> isWhiteSpace (hd (rev s))"
    using assms(1,3) by (simp add: hd_rev)
  then have "dropWhile isWhiteSpace (rev s) = rev s"
    using assms(1) by (intro dropWhile_hd) simp_all
  then show ?thesis
    by (simp add: trim_def a)
qed

lemma trim_idem: "trim (trim s) = trim s"
proof (cases "trim s = []")
  case True
  have "trim [] = []" by (simp add: trim_def)
  with True show ?thesis by simp
next
  case False
  define u where "u = dropWhile isWhiteSpace s"
  define v where "v = dropWhile isWhiteSpace (rev u)"
  have t: "trim s = rev v" by (simp add: trim_def u_def v_def)
  have v: "v \<noteq> []" using False t by simp
  then have hv: "\<not> isWhiteSpace (hd v)"
    unfolding v_def by (rule hd_dropWhile)
  have "u \<noteq> []" using v v_def by auto
  then have hu: "\<not> isWhiteSpace (hd u)"
    unfolding u_def by (rule hd_dropWhile)
  have "rev u = takeWhile isWhiteSpace (rev u) @ v"
    by (simp add: v_def)
  then have "u = rev v @ rev (takeWhile isWhiteSpace (rev u))"
    by (metis rev_append rev_rev_ident)
  then have "hd u = hd (rev v)"
    using v by (metis hd_append2 rev_is_Nil_conv)
  then have "\<not> isWhiteSpace (hd (trim s))" using hu t by simp
  moreover have "\<not> isWhiteSpace (last (trim s))"
    using hv v t by (simp add: last_rev)
  ultimately show ?thesis using False by (intro trim_unchanged)
qed

section \<open>Facts about the search preview and the theme lookup\<close>

lemma searchPreview_blank: "trim q = [] \<Longrightarrow> searchPreview items q = []"
  by (simp add: searchPreview_def)

lemma searchPreview_nonblank:
  "trim q \<noteq> [] \<Longrightarrow>
   searchPreview items q =
     take 5 (filter (\<lambda>item. includes_str (toLowerCase (title item)) (toLowerCase q)) items)"
  by (simp add: searchPreview_def)

text \<open>A filtered list is the list read at the increasing positions that pass the test.\<close>

lemma filter_by_positions:
  "filter P xs = map ((!) xs) (filter (\<lambda>k. P (xs ! k)) [0..<length xs])"
proof -
  have "filter P (map ((!) xs) [0..<length xs]) =
        map ((!) xs) (filter (P \<circ> (!) xs) [0..<length xs])"
    by (rule filter_map)
  then show ?thesis
    by (simp add: map_nth comp_def)
qed

lemma find_absent: "p \<notin> set (map f xs) \<Longrightarrow> find (\<lambda>x. p = f x) xs = None"
  by (induction xs) auto

lemma trim_Love: "trim ''Love'' \<noteq> []"
  by code_simp

section \<open>The search preview\<close>

text \<open>
  C1. For every item list and every query \<open>q\<close>, every item of
  \<open>searchPreview items q\<close> has a title that, compared case-insensitively (both sides
  lower-cased), contains the trimmed query as a contiguous substring.
\<close>

theorem searchPreview_title_contains_trimmed_query:
  assumes "item \<in> set (searchPreview items q)"
  shows "includes_str (toLowerCase (title item)) (toLowerCase (trim q))"
proof -
  have nb: "trim q \<noteq> []"
    using assms by (auto simp: searchPreview_def split: if_splits)
  from assms have
    "item \<in> set (filter (\<lambda>item. includes_str (toLowerCase (title item)) (toLowerCase q)) items)"
    unfolding searchPreview_nonblank [OF nb] by (rule in_set_takeD)
  then have "sublist (toLowerCase q) (toLowerCase (title item))"
    by (simp add: includes_str_sublist)
  moreover have "sublist (toLowerCase (trim q)) (toLowerCase q)"
    by (intro sublist_toLowerCase sublist_trim)
  ultimately have "sublist (toLowerCase (trim q)) (toLowerCase (title item))"
    by (metis sublist_order.order_trans)
  then show ?thesis
    by (simp add: includes_str_sublist)
qed

theorem searchPreview_title_contains_trimmed_query_witness:
  "INITIAL_DATA ! 3 \<in> set (searchPreview INITIAL_DATA '' FAIRY '')
   \<and> includes_str (toLowerCase (title (INITIAL_DATA ! 3))) (toLowerCase (trim '' FAIRY ''))"
proof -
  have h: "INITIAL_DATA ! 3 \<in> set (searchPreview INITIAL_DATA '' FAIRY '')"
    by code_simp
  from h searchPreview_title_contains_trimmed_query [OF h] show ?thesis
    by (rule conjI)
qed

text \<open>
  C2. For every item list and every query the result has at most 5 items, however
  many items match. In particular, 7 items whose titles all contain \<open>Love\<close>, searched
  for \<open>Love\<close>, give exactly 5 items; and so do any 7 items whose titles all include
  (case-insensitively) a query that does not trim to the empty string.
\<close>

theorem searchPreview_at_most_five:
  "length (searchPreview items q) \<le> 5
   \<and> (length items = 7 \<and> (\<forall>item\<in>set items. sublist ''Love'' (title item))
        \<longrightarrow> length (searchPreview items ''Love'') = 5)
   \<and> (length items = 7 \<and> trim q \<noteq> [] \<and>
       (\<forall>item\<in>set items. includes_str (toLowerCase (title item)) (toLowerCase q))
        \<longrightarrow> length (searchPreview items q) = 5)"
proof (intro conjI impI)
  show "length (searchPreview items q) \<le> 5"
    by (simp add: searchPreview_def)
next
  assume a: "length items = 7 \<and> (\<forall>item\<in>set items. sublist ''Love'' (title item))"
  then have "\<forall>item\<in>set items.
      includes_str (toLowerCase (title item)) (toLowerCase ''Love'')"
    by (simp add: includes_str_sublist sublist_toLowerCase)
  then have "filter (\<lambda>item. includes_str (toLowerCase (title item)) (toLowerCase ''Love''))
      items = items"
    by simp
  with a show "length (searchPreview items ''Love'') = 5"
    by (simp add: searchPreview_nonblank [OF trim_Love])
next
  assume a: "length items = 7 \<and> trim q \<noteq> [] \<and>
    (\<forall>item\<in>set items. includes_str (toLowerCase (title item)) (toLowerCase q))"
  then have "filter (\<lambda>item. includes_str (toLowerCase (title item)) (toLowerCase q)) items
      = items"
    by simp
  with a show "length (searchPreview items q) = 5"
    by (simp add: searchPreview_def)
qed

theorem searchPreview_at_most_five_witness:
  "length (map (\<lambda>t. (INITIAL_DATA ! 0)\<lparr>title := t\<rparr>)
      [''Lovely Runner'', ''Love Between Fairy and Devil'', ''Love Alarm'', ''True Love'',
       ''Love'', ''My Love from the Star'', ''Love Next Door'']) = 7
   \<and> list_all (\<lambda>item. sublist ''Love'' (title item))
       (map (\<lambda>t. (INITIAL_DATA ! 0)\<lparr>title := t\<rparr>)
         [''Lovely Runner'', ''Love Between Fairy and Devil'', ''Love Alarm'', ''True Love'',
          ''Love'', ''My Love from the Star'', ''Love Next Door''])
   \<and> length (searchPreview (map (\<lambda>t. (INITIAL_DATA ! 0)\<lparr>title := t\<rparr>)
        [''Lovely Runner'', ''Love Between Fairy and Devil'', ''Love Alarm'', ''True Love'',
         ''Love'', ''My Love from the Star'', ''Love Next Door'']) ''Love'') = 5"
proof -
  let ?items = "map (\<lambda>t. (INITIAL_DATA ! 0)\<lparr>title := t\<rparr>)
      [''Lovely Runner'', ''Love Between Fairy and Devil'', ''Love Alarm'', ''True Love'',
       ''Love'', ''My Love from the Star'', ''Love Next Door'']"
  have n: "length ?items = 7"
    by simp
  have l: "list_all (\<lambda>item. sublist ''Love'' (title item)) ?items"
    by code_simp
  then have b: "\<forall>item\<in>set ?items. sublist ''Love'' (title item)"
    by (simp only: list_all_iff)
  have "length (searchPreview ?items ''Love'') = 5"
    using searchPreview_at_most_five [of ?items "''Love''"] n b by blast
  with n l show ?thesis
    by (intro conjI)
qed

text \<open>
  C3, as amended. The query is trimmed only to decide whether it is blank; the
  containment test reads the query as it was typed. So
  \<open>searchPreview items q = searchPreview items (trim q)\<close> holds for every query that is
  blank (it consists of white space only) or that neither starts nor ends with white
  space.
\<close>

theorem searchPreview_trim_only_guards:
  assumes "(\<forall>c\<in>set q. isWhiteSpace c) \<or>
           (q \<noteq> [] \<and> \<not> isWhiteSpace (hd q) \<and> \<not> isWhiteSpace (last q))"
  shows "searchPreview items q = searchPreview items (trim q)"
  using assms
proof
  assume "\<forall>c\<in>set q. isWhiteSpace c"
  then have t: "trim q = []" by (simp add: trim_blank_iff)
  have "trim (trim q) = []" unfolding trim_idem by (rule t)
  then have "searchPreview items (trim q) = []" by (rule searchPreview_blank)
  then show ?thesis
    by (simp only: searchPreview_blank [OF t])
next
  assume "q \<noteq> [] \<and> \<not> isWhiteSpace (hd q) \<and> \<not> isWhiteSpace (last q)"
  then have "trim q = q" by (simp add: trim_unchanged)
  then show ?thesis by simp
qed

theorem searchPreview_trim_only_guards_witness:
  "list_all isWhiteSpace ''   ''
   \<and> searchPreview INITIAL_DATA ''   '' = searchPreview INITIAL_DATA (trim ''   '')
   \<and> \<not> isWhiteSpace (hd ''ov'') \<and> \<not> isWhiteSpace (last ''ov'')
   \<and> searchPreview INITIAL_DATA ''ov'' = searchPreview INITIAL_DATA (trim ''ov'')"
proof -
  have l: "list_all isWhiteSpace ''   ''"
    by code_simp
  then have b: "\<forall>c\<in>set ''   ''. isWhiteSpace c"
    by (simp only: list_all_iff)
  have h: "\<not> isWhiteSpace (hd ''ov'')" and t: "\<not> isWhiteSpace (last ''ov'')"
    by code_simp+
  have "searchPreview INITIAL_DATA ''   '' = searchPreview INITIAL_DATA (trim ''   '')"
    using searchPreview_trim_only_guards [of "''   ''" INITIAL_DATA] b by blast
  moreover have "searchPreview INITIAL_DATA ''ov'' = searchPreview INITIAL_DATA (trim ''ov'')"
    using searchPreview_trim_only_guards [of "''ov''" INITIAL_DATA] h t by blast
  ultimately show ?thesis
    using l h t by (intro conjI)
qed

text \<open>
  C3, as stated, fails: the query \<open>'' ov''\<close> (a space, then \<open>ov\<close>) finds nothing
  in the seed data, while its trimmed form \<open>''ov''\<close> finds two items.
\<close>

theorem searchPreview_trim_counterexample:
  "searchPreview INITIAL_DATA '' ov'' \<noteq> searchPreview INITIAL_DATA (trim '' ov'')"
proof -
  have "length (searchPreview INITIAL_DATA '' ov'') = 0"
    by code_simp
  moreover have "length (searchPreview INITIAL_DATA (trim '' ov'')) = 2"
    by code_simp
  ultimately show ?thesis
    by (metis zero_neq_numeral)
qed

text \<open>
  C4. For every item list, empty or not, a query that is the empty string or consists
  of white space only gives the empty result.
\<close>

theorem searchPreview_blank_query:
  "(\<forall>c\<in>set q. isWhiteSpace c) \<Longrightarrow> searchPreview items q = []"
  by (simp add: searchPreview_def trim_blank_iff)

theorem searchPreview_blank_query_witness:
  "list_all isWhiteSpace ''   '' \<and> INITIAL_DATA \<noteq> []
   \<and> searchPreview INITIAL_DATA ''   '' = [] \<and> searchPreview INITIAL_DATA [] = []"
proof -
  have l: "list_all isWhiteSpace ''   ''"
    by code_simp
  then have b: "\<forall>c\<in>set ''   ''. isWhiteSpace c"
    by (simp only: list_all_iff)
  have n: "INITIAL_DATA \<noteq> []"
    by (simp add: INITIAL_DATA_def)
  have "searchPreview INITIAL_DATA ''   '' = []"
    using b by (rule searchPreview_blank_query)
  moreover have "searchPreview INITIAL_DATA [] = []"
    by (rule searchPreview_blank_query) simp
  ultimately show ?thesis
    using l n by (intro conjI)
qed

text \<open>
  C5. For every item list and every query the result is a subsequence of the input:
  it is the input with some items left out, so the items it keeps stand in the order
  they have in the input.
\<close>

theorem searchPreview_subseq: "subseq (searchPreview items q) items"
proof (cases "trim q = []")
  case True
  then show ?thesis by (simp add: searchPreview_def)
next
  case False
  let ?ms = "filter (\<lambda>item. includes_str (toLowerCase (title item)) (toLowerCase q)) items"
  have "subseq (take 5 ?ms) ?ms"
    by (intro sublist_imp_subseq sublist_take)
  moreover have "subseq ?ms items"
    by (rule subseq_filter_left)
  ultimately have "subseq (take 5 ?ms) items"
    by (rule subseq_order.order_trans)
  then show ?thesis
    using False by (simp add: searchPreview_def)
qed

theorem searchPreview_subseq_witness:
  "searchPreview INITIAL_DATA ''love'' = [INITIAL_DATA ! 0, INITIAL_DATA ! 3]
   \<and> subseq [INITIAL_DATA ! 0, INITIAL_DATA ! 3] INITIAL_DATA"
proof -
  have e: "searchPreview INITIAL_DATA ''love'' = [INITIAL_DATA ! 0, INITIAL_DATA ! 3]"
    by code_simp
  from searchPreview_subseq [of INITIAL_DATA "''love''"]
  have "subseq [INITIAL_DATA ! 0, INITIAL_DATA ! 3] INITIAL_DATA"
    unfolding e .
  with e show ?thesis
    by (rule conjI)
qed

text \<open>
  C7. The search reads titles only. Two item lists with the same titles at the same
  positions give, for every query, results made of the items at the same increasing
  positions \<open>ks\<close> of each list, whatever the other fields (genres, category, year,
  status and the rest) hold. And for three items titled \<open>Lovely Runner\<close>,
  \<open>Dune: Part Two\<close> and \<open>Jujutsu Kaisen\<close> the query \<open>ov\<close> gives exactly the first.
\<close>

theorem searchPreview_title_only:
  "(map title xs = map title ys \<longrightarrow>
      (\<exists>ks. sorted_wrt (<) ks \<and> set ks \<subseteq> {..<length xs}
            \<and> searchPreview xs q = map ((!) xs) ks
            \<and> searchPreview ys q = map ((!) ys) ks))
   \<and> (title a = ''Lovely Runner'' \<and> title b = ''Dune: Part Two''
        \<and> title c = ''Jujutsu Kaisen''
        \<longrightarrow> searchPreview [a, b, c] ''ov'' = [a])"
proof (intro conjI impI)
  assume t: "map title xs = map title ys"
  then have len: "length xs = length ys"
    by (rule map_eq_imp_length_eq)
  have nth: "title (xs ! k) = title (ys ! k)" if "k < length xs" for k
    using that t len by (metis nth_map)
  let ?P = "\<lambda>item. includes_str (toLowerCase (title item)) (toLowerCase q)"
  let ?ks = "if trim q = [] then []
             else take 5 (filter (\<lambda>k. ?P (xs ! k)) [0..<length xs])"
  have same: "filter (\<lambda>k. ?P (ys ! k)) [0..<length ys] =
              filter (\<lambda>k. ?P (xs ! k)) [0..<length xs]"
    unfolding len [symmetric] by (rule filter_cong) (simp_all add: nth)
  have "sorted_wrt (<) (filter (\<lambda>k. ?P (xs ! k)) [0..<length xs])"
    by (intro sorted_wrt_filter) simp
  then have "sorted_wrt (<) ?ks"
    by (simp add: sorted_wrt_take)
  moreover have "set ?ks \<subseteq> {..<length xs}"
    by (auto dest: in_set_takeD)
  moreover have "searchPreview xs q = map ((!) xs) ?ks"
    by (simp add: searchPreview_def take_map filter_by_positions [of ?P xs])
  moreover have "searchPreview ys q = map ((!) ys) ?ks"
    by (simp add: searchPreview_def take_map filter_by_positions [of ?P ys] same)
  ultimately show "\<exists>ks. sorted_wrt (<) ks \<and> set ks \<subseteq> {..<length xs}
            \<and> searchPreview xs q = map ((!) xs) ks
            \<and> searchPreview ys q = map ((!) ys) ks"
    by blast
next
  assume "title a = ''Lovely Runner'' \<and> title b = ''Dune: Part Two''
        \<and> title c = ''Jujutsu Kaisen''"
  moreover have "trim ''ov'' \<noteq> []"
    by code_simp
  moreover have "includes_str (toLowerCase ''Lovely Runner'') (toLowerCase ''ov'')"
    by code_simp
  moreover have "\<not> includes_str (toLowerCase ''Dune: Part Two'') (toLowerCase ''ov'')"
    by code_simp
  moreover have "\<not> includes_str (toLowerCase ''Jujutsu Kaisen'') (toLowerCase ''ov'')"
    by code_simp
  ultimately show "searchPreview [a, b, c] ''ov'' = [a]"
    by (simp add: searchPreview_def)
qed

theorem searchPreview_title_only_witness:
  "map title INITIAL_DATA =
     map title (map (\<lambda>item. item\<lparr>category := ''anime'', status := ''dropped'', genres := []\<rparr>)
                  INITIAL_DATA)
   \<and> (\<exists>ks. sorted_wrt (<) ks \<and> set ks \<subseteq> {..<length INITIAL_DATA}
        \<and> searchPreview INITIAL_DATA ''love'' = map ((!) INITIAL_DATA) ks
        \<and> searchPreview
            (map (\<lambda>item. item\<lparr>category := ''anime'', status := ''dropped'', genres := []\<rparr>)
               INITIAL_DATA) ''love''
          = map ((!) (map (\<lambda>item. item\<lparr>category := ''anime'', status := ''dropped'',
                                          genres := []\<rparr>) INITIAL_DATA)) ks)
   \<and> title (INITIAL_DATA ! 0) = ''Lovely Runner''
   \<and> title (INITIAL_DATA ! 1) = ''Dune: Part Two''
   \<and> title (INITIAL_DATA ! 2) = ''Jujutsu Kaisen''
   \<and> searchPreview [INITIAL_DATA ! 0, INITIAL_DATA ! 1, INITIAL_DATA ! 2] ''ov''
       = [INITIAL_DATA ! 0]"
proof -
  let ?ys = "map (\<lambda>item. item\<lparr>category := ''anime'', status := ''dropped'', genres := []\<rparr>)
               INITIAL_DATA"
  note inst = searchPreview_title_only
    [of INITIAL_DATA ?ys "''love''" "INITIAL_DATA ! 0" "INITIAL_DATA ! 1" "INITIAL_DATA ! 2"]
  have h: "map title INITIAL_DATA = map title ?ys"
    by (simp add: comp_def)
  have t0: "title (INITIAL_DATA ! 0) = ''Lovely Runner''"
    and t1: "title (INITIAL_DATA ! 1) = ''Dune: Part Two''"
    and t2: "title (INITIAL_DATA ! 2) = ''Jujutsu Kaisen''"
    by (simp_all add: INITIAL_DATA_def)
  have p: "\<exists>ks. sorted_wrt (<) ks \<and> set ks \<subseteq> {..<length INITIAL_DATA}
        \<and> searchPreview INITIAL_DATA ''love'' = map ((!) INITIAL_DATA) ks
        \<and> searchPreview ?ys ''love'' = map ((!) ?ys) ks"
    using inst h by blast
  have e: "searchPreview [INITIAL_DATA ! 0, INITIAL_DATA ! 1, INITIAL_DATA ! 2] ''ov''
       = [INITIAL_DATA ! 0]"
    using inst t0 t1 t2 by blast
  from h p t0 t1 t2 e show ?thesis
    by (intro conjI)
qed

text \<open>
  C9. For every item list and every query that does not trim to the empty string,
  the result is the first \<open>min 5 n\<close> of the \<open>n\<close> items, in input order, whose
  lower-cased title contains the lower-cased query as typed (not trimmed) as a
  contiguous substring; so each of the first five matching items is returned, at its
  place.
\<close>

theorem searchPreview_complete:
  assumes "trim q \<noteq> []"
    and "ms = filter (\<lambda>item. sublist (toLowerCase q) (toLowerCase (title item))) items"
  shows "searchPreview items q = take (min 5 (length ms)) ms
         \<and> length (searchPreview items q) = min 5 (length ms)
         \<and> (\<forall>k<min 5 (length ms). searchPreview items q ! k = ms ! k)"
proof -
  have s: "searchPreview items q = take 5 ms"
    using assms by (simp add: searchPreview_def includes_str_sublist)
  show ?thesis
    unfolding s by (simp add: min_def)
qed

theorem searchPreview_complete_witness:
  "trim '' FAIRY '' \<noteq> []
   \<and> filter (\<lambda>item. sublist (toLowerCase '' FAIRY '') (toLowerCase (title item))) INITIAL_DATA
       = [INITIAL_DATA ! 3]
   \<and> searchPreview INITIAL_DATA '' FAIRY '' = [INITIAL_DATA ! 3]"
proof -
  have h: "trim '' FAIRY '' \<noteq> []"
    by code_simp
  have m: "filter (\<lambda>item. sublist (toLowerCase '' FAIRY '') (toLowerCase (title item)))
      INITIAL_DATA = [INITIAL_DATA ! 3]"
    by code_simp
  have "searchPreview INITIAL_DATA '' FAIRY '' = [INITIAL_DATA ! 3]"
    using searchPreview_complete [OF h m [symmetric]] by simp
  with h m show ?thesis
    by (intro conjI)
qed

section \<open>Theme resolution and the seed data\<close>

text \<open>
  C6. For the route path of each category the theme colour is that category's colour;
  for every path that is no category's path (the home page, the admin page, an unknown
  route) it is the default \<open>#A42EFF\<close>. The lookup for \<open>/anime\<close> finds the ANIME record,
  whose colour is \<open>#FF7DE8\<close>.
\<close>

theorem themeColor_category_or_default:
  "(\<forall>cat\<in>set CATEGORIES. themeColor (path cat) = color cat)
   \<and> (p \<notin> set (map path CATEGORIES) \<longrightarrow> themeColor p = ''#A42EFF'')
   \<and> currentCategory ''/anime'' =
       Some \<lparr>cat_id = ''anime'', name = ''ANIME'', color = ''#FF7DE8'',
             gradient = ''from-[#2e0a26] to-[#FF7DE8]'', path = ''/anime''\<rparr>
   \<and> themeColor ''/anime'' = ''#FF7DE8''"
proof (intro conjI impI)
  show "\<forall>cat\<in>set CATEGORIES. themeColor (path cat) = color cat"
    by (simp add: CATEGORIES_def themeColor_def currentCategory_def)
next
  assume "p \<notin> set (map path CATEGORIES)"
  then have "currentCategory p = None"
    unfolding currentCategory_def by (rule find_absent)
  then show "themeColor p = ''#A42EFF''"
    by (simp add: themeColor_def)
next
  show "currentCategory ''/anime'' =
       Some \<lparr>cat_id = ''anime'', name = ''ANIME'', color = ''#FF7DE8'',
             gradient = ''from-[#2e0a26] to-[#FF7DE8]'', path = ''/anime''\<rparr>"
    by (simp add: CATEGORIES_def currentCategory_def)
next
  show "themeColor ''/anime'' = ''#FF7DE8''"
    by (simp add: CATEGORIES_def themeColor_def currentCategory_def)
qed

theorem themeColor_category_or_default_witness:
  "CATEGORIES ! 2 \<in> set CATEGORIES
   \<and> themeColor (path (CATEGORIES ! 2)) = color (CATEGORIES ! 2)
   \<and> color (CATEGORIES ! 2) = ''#5045D9''
   \<and> ''/admin'' \<notin> set (map path CATEGORIES) \<and> themeColor ''/admin'' = ''#A42EFF''
   \<and> ''/'' \<notin> set (map path CATEGORIES) \<and> themeColor ''/'' = ''#A42EFF''"
proof -
  have m: "CATEGORIES ! 2 \<in> set CATEGORIES"
    and c: "color (CATEGORIES ! 2) = ''#5045D9''"
    and a: "''/admin'' \<notin> set (map path CATEGORIES)"
    and r: "''/'' \<notin> set (map path CATEGORIES)"
    by (simp_all add: CATEGORIES_def)
  have "themeColor (path (CATEGORIES ! 2)) = color (CATEGORIES ! 2)"
    using themeColor_category_or_default [of "''/admin''"] m by blast
  moreover have "themeColor ''/admin'' = ''#A42EFF''"
    using themeColor_category_or_default [of "''/admin''"] a by blast
  moreover have "themeColor ''/'' = ''#A42EFF''"
    using themeColor_category_or_default [of "''/''"] r by blast
  ultimately show ?thesis
    using m c a r by (intro conjI)
qed

text \<open>
  C8. The seed data keeps the invariants of the collection: the ids of its items are
  pairwise distinct, and every item has the id of a registered category as its category
  and one of the five status values of \<open>STATUS_OPTIONS\<close> as its status.
\<close>

theorem INITIAL_DATA_invariants:
  "distinct (map item_id INITIAL_DATA)
   \<and> (\<forall>item\<in>set INITIAL_DATA.
         category item \<in> set (map cat_id CATEGORIES)
         \<and> status item \<in> set (map opt_value STATUS_OPTIONS))
   \<and> map opt_value STATUS_OPTIONS =
       [''watching'', ''completed'', ''plan-to-watch'', ''on-hold'', ''dropped'']"
  by (simp add: INITIAL_DATA_def CATEGORIES_def STATUS_OPTIONS_def)

theorem INITIAL_DATA_invariants_witness:
  "INITIAL_DATA ! 1 \<in> set INITIAL_DATA
   \<and> category (INITIAL_DATA ! 1) = ''hmovie''
   \<and> category (INITIAL_DATA ! 1) \<in> set (map cat_id CATEGORIES)
   \<and> status (INITIAL_DATA ! 1) = ''completed''
   \<and> status (INITIAL_DATA ! 1) \<in> set (map opt_value STATUS_OPTIONS)"
proof -
  have m: "INITIAL_DATA ! 1 \<in> set INITIAL_DATA"
    and c: "category (INITIAL_DATA ! 1) = ''hmovie''"
    and s: "status (INITIAL_DATA ! 1) = ''completed''"
    by (simp_all add: INITIAL_DATA_def)
  have "category (INITIAL_DATA ! 1) \<in> set (map cat_id CATEGORIES)
      \<and> status (INITIAL_DATA ! 1) \<in> set (map opt_value STATUS_OPTIONS)"
    using INITIAL_DATA_invariants m by blast
  with m c s show ?thesis
    by (intro conjI) simp_all
qed

text \<open>
  C10. The default accent colour \<open>#A42EFF\<close> is also the colour of the categories
  \<open>kdrama\<close> and \<open>kmovie\<close>: the paths \<open>/\<close>, \<open>/admin\<close>, \<open>/kdrama\<close> and \<open>/kmovie\<close>, and
  every path that belongs to no category, resolve to one and the same theme colour, which
  therefore does not tell these routes apart.
\<close>

theorem default_color_is_kdrama_kmovie_color:
  "themeColor ''/'' = ''#A42EFF'' \<and> themeColor ''/admin'' = ''#A42EFF''
   \<and> themeColor ''/kdrama'' = ''#A42EFF'' \<and> themeColor ''/kmovie'' = ''#A42EFF''
   \<and> map color (filter (\<lambda>cat. cat_id cat = ''kdrama'' \<or> cat_id cat = ''kmovie'') CATEGORIES)
       = [''#A42EFF'', ''#A42EFF'']
   \<and> (p \<notin> set (map path CATEGORIES) \<longrightarrow> themeColor p = themeColor ''/kdrama'')"
proof -
  have "p \<notin> set (map path CATEGORIES) \<longrightarrow> themeColor p = ''#A42EFF''"
  proof
    assume "p \<notin> set (map path CATEGORIES)"
    then have "currentCategory p = None"
      unfolding currentCategory_def by (rule find_absent)
    then show "themeColor p = ''#A42EFF''"
      by (simp add: themeColor_def)
  qed
  moreover have k: "themeColor ''/kdrama'' = ''#A42EFF''"
    by (simp add: CATEGORIES_def themeColor_def currentCategory_def)
  moreover have "themeColor ''/'' = ''#A42EFF''" and "themeColor ''/admin'' = ''#A42EFF''"
    and "themeColor ''/kmovie'' = ''#A42EFF''"
    by (simp_all add: CATEGORIES_def themeColor_def currentCategory_def)
  moreover have
    "map color (filter (\<lambda>cat. cat_id cat = ''kdrama'' \<or> cat_id cat = ''kmovie'') CATEGORIES)
       = [''#A42EFF'', ''#A42EFF'']"
    by (simp add: CATEGORIES_def)
  ultimately show ?thesis
    by simp
qed

theorem default_color_is_kdrama_kmovie_color_witness:
  "''/search'' \<notin> set (map path CATEGORIES)
   \<and> themeColor ''/search'' = themeColor ''/kdrama''
   \<and> themeColor ''/'' = themeColor ''/kmovie''
   \<and> themeColor ''/admin'' = themeColor ''/kdrama''"
proof -
  have a: "''/search'' \<notin> set (map path CATEGORIES)"
    by (simp add: CATEGORIES_def)
  note inst = default_color_is_kdrama_kmovie_color [of "''/search''"]
  have "themeColor ''/search'' = themeColor ''/kdrama''"
    using inst a by blast
  moreover have "themeColor ''/'' = themeColor ''/kmovie''"
    using inst by simp
  moreover have "themeColor ''/admin'' = themeColor ''/kdrama''"
    using inst by simp
  ultimately show ?thesis
    using a by (intro conjI)
qed

end
